theory Spec2Isabelle
  imports Main
begin

section \<open>The launcher command client (pkg/virt-handler/cmd-client/client.go)\<close>

text \<open>
  A shallow embedding of the command client of virt-handler. Go strings are byte
  sequences and are modelled as \<open>string\<close> (a list of 8-bit characters). A Go function
  with several results returns a tuple; a result of type \<open>error\<close> is a
  \<open>go_error option\<close> with \<open>None\<close> for \<open>nil\<close>; a pointer result that may be \<open>nil\<close>
  is an \<open>option\<close> as well.
\<close>

subsection \<open>Error values\<close>

text \<open>
  The three sentinel errors are compared by identity in \<open>IsDisconnected\<close>, so each is a
  constructor of its own. \<open>ErrorString s\<close> is an error made by \<open>errors.New(s)\<close>, and
  stands for every other error value a callee hands back, known by its text.
  \<open>ErrNotExist op path\<close> is a path error for which \<open>os.IsNotExist\<close> holds.
  The two errors \<open>genericSendCmd\<close> itself creates keep what they were built from:
  \<open>ErrUnknownSend cmd err\<close> is
  \<open>fmt.Errorf(fmt.Sprintf("unknown error encountered sending command %s: %s", cmd, err.Error()))\<close>
  and \<open>ErrServerFailed cmd message\<close> is
  \<open>fmt.Errorf(fmt.Sprintf("server error. command %s failed: %s", cmd, message))\<close>.
  The Go values hold nothing but their text, which \<open>Error\<close> below computes.
\<close>

datatype go_error =
    ErrShutdown
  | ErrUnexpectedEOF
  | EOF
  | ErrNotExist string string
  | ErrorString string
  | ErrUnknownSend string go_error
  | ErrServerFailed string string

text \<open>
  \<open>fmt.Errorf(format)\<close> called with a format string and no operands, as both error
  branches of \<open>genericSendCmd\<close> call it. Text up to a percent sign is copied. A percent
  sign at the end of the format prints \<open>%!(NOVERB)\<close>; \<open>%%\<close> prints one percent sign; a
  percent sign followed by an ASCII verb character prints \<open>%!v(MISSING)\<close>, there being
  no operand for the verb. A percent sign followed by a flag, a width, a precision, an
  argument index or a byte outside ASCII is not covered: the result is \<open>None\<close> there.
\<close>

definition plain_verb :: "char \<Rightarrow> bool" where
  "plain_verb v \<longleftrightarrow>
     (of_char v :: nat) < 128 \<and> v \<notin> set ''#0+- [*.123456789''"

fun Sprintf0 :: "string \<Rightarrow> string option" where
  "Sprintf0 [] = Some []"
| "Sprintf0 [c] = (if c = CHR ''%'' then Some ''%!(NOVERB)'' else Some [c])"
| "Sprintf0 (c # v # rest) =
     (if c \<noteq> CHR ''%'' then map_option ((#) c) (Sprintf0 (v # rest))
      else if v = CHR ''%'' then map_option ((#) CHR ''%'') (Sprintf0 rest)
      else if plain_verb v
        then map_option (\<lambda>s. ''%!'' @ [v] @ ''(MISSING)'' @ s) (Sprintf0 rest)
      else None)"

fun Error :: "go_error \<Rightarrow> string option" where
  "Error ErrShutdown = Some ''connection is shut down''"
| "Error ErrUnexpectedEOF = Some ''unexpected EOF''"
| "Error EOF = Some ''EOF''"
| "Error (ErrNotExist op path) = Some (op @ '' '' @ path @ '': no such file or directory'')"
| "Error (ErrorString s) = Some s"
| "Error (ErrUnknownSend cmd err) =
     (case Error err of
        None \<Rightarrow> None
      | Some t \<Rightarrow> Sprintf0 (''unknown error encountered sending command '' @ cmd @ '': '' @ t))"
| "Error (ErrServerFailed cmd message) =
     Sprintf0 (''server error. command '' @ cmd @ '' failed: '' @ message)"

definition os_IsNotExist :: "go_error \<Rightarrow> bool" where
  "os_IsNotExist e = (case e of ErrNotExist _ _ \<Rightarrow> True | _ \<Rightarrow> False)"

subsection \<open>The library functions on strings and paths the client calls\<close>

text \<open>
  \<open>strings.Join(elems, sep)\<close>.
\<close>

fun strings_Join :: "string list \<Rightarrow> string \<Rightarrow> string" where
  "strings_Join [] sep = []"
| "strings_Join [e] sep = e"
| "strings_Join (e # f # es) sep = e @ sep @ strings_Join (f # es) sep"

text \<open>
  The elements of a path: the pieces between separator bytes, empty pieces included,
  so that a string with \<open>k\<close> separators has \<open>k + 1\<close> elements.
\<close>

fun split_sep :: "char \<Rightarrow> string \<Rightarrow> string list" where
  "split_sep c [] = [[]]"
| "split_sep c (x # xs) =
     (if x = c then [] # split_sep c xs
      else (case split_sep c xs of
              [] \<Rightarrow> [[x]]
            | y # ys \<Rightarrow> (x # y) # ys))"

text \<open>
  \<open>filepath.Clean\<close> on Unix, where the separator is the slash and there is no volume
  name. It reads the elements of the path from left to right and keeps the elements
  of the result: an empty element and \<open>.\<close> are dropped; \<open>..\<close> removes the element
  before it when that is not itself \<open>..\<close>, is dropped at the root of a rooted path,
  and is kept otherwise; every other element is kept. The result is the kept
  elements joined by single slashes, after a slash when the path is rooted, and
  \<open>.\<close> when that is empty.
\<close>

definition clean_step :: "bool \<Rightarrow> string list \<Rightarrow> string \<Rightarrow> string list" where
  "clean_step rooted out e =
     (if e = [] \<or> e = ''.'' then out
      else if e = ''..'' then
        (if out \<noteq> [] \<and> last out \<noteq> ''..'' then butlast out
         else if rooted then out
         else out @ [''..''])
      else out @ [e])"

definition filepath_Clean :: "string \<Rightarrow> string" where
  "filepath_Clean path =
     (if path = [] then ''.''
      else
        let rooted = (hd path = CHR ''/'');
            out = foldl (clean_step rooted) [] (split_sep CHR ''/'' path);
            s = (if rooted then ''/'' else []) @ strings_Join out ''/''
        in if s = [] then ''.'' else s)"

text \<open>
  \<open>filepath.Join\<close>: the elements from the first non-empty one on are joined by
  slashes and the result is cleaned; with no non-empty element the result is the
  empty string.
\<close>

definition filepath_Join :: "string list \<Rightarrow> string" where
  "filepath_Join elem =
     (case dropWhile (\<lambda>e. e = []) elem of
        [] \<Rightarrow> []
      | es \<Rightarrow> filepath_Clean (strings_Join es ''/''))"

text \<open>
  \<open>filepath.Base\<close>: trailing slashes are removed, and the result is what follows the
  last slash that is left; the empty path gives \<open>.\<close> and a path of slashes only
  gives a single slash.
\<close>

definition filepath_Base :: "string \<Rightarrow> string" where
  "filepath_Base path =
     (if path = [] then ''.''
      else
        let p = rev (dropWhile (\<lambda>c. c = CHR ''/'') (rev path));
            e = rev (takeWhile (\<lambda>c. c \<noteq> CHR ''/'') (rev p))
        in if e = [] then ''/'' else e)"

text \<open>
  \<open>strings.SplitN(s, sep, n)\<close> for a separator of one byte, which is how the client
  calls it. \<open>split_loop k\<close> cuts at most \<open>k\<close> times, at the first separators from the
  left, and the last piece is the unsplit remainder. \<open>n = 0\<close> gives no pieces, a
  negative \<open>n\<close> cuts at every separator, and a positive \<open>n\<close> cuts at most \<open>n - 1\<close> times.
\<close>

fun split_loop :: "nat \<Rightarrow> string \<Rightarrow> char \<Rightarrow> string list" where
  "split_loop 0 s sep = [s]"
| "split_loop (Suc k) s sep =
     (if sep \<in> set s
      then takeWhile (\<lambda>c. c \<noteq> sep) s # split_loop k (tl (dropWhile (\<lambda>c. c \<noteq> sep) s)) sep
      else [s])"

definition strings_SplitN :: "string \<Rightarrow> char \<Rightarrow> int \<Rightarrow> string list" where
  "strings_SplitN s sep n =
     (if n = 0 then []
      else if n < 0 then split_loop (count_list s sep) s sep
      else split_loop (nat n - 1) s sep)"

subsection \<open>Channel addressing\<close>

text \<open>
  Modelled from the spec: \<open>api.Domain\<close> and \<open>api.NewDomainReferenceFromName\<close> are
  declared in pkg/virt-launcher/virtwrap/api, outside the files at hand. A domain is
  kept as the namespace and name of its object metadata, which is all the client
  reads or writes of it; \<open>NewDomainReferenceFromName\<close> builds a domain that carries the
  given namespace and name, and the zero value \<open>api.Domain{}\<close> has both empty.
\<close>

record api_Domain =
  ObjectMeta_Namespace :: string
  ObjectMeta_Name :: string

definition NewDomainReferenceFromName :: "string \<Rightarrow> string \<Rightarrow> api_Domain" where
  "NewDomainReferenceFromName namespace name =
     \<lparr>ObjectMeta_Namespace = namespace, ObjectMeta_Name = name\<rparr>"

definition zero_Domain :: api_Domain where
  "zero_Domain = \<lparr>ObjectMeta_Namespace = [], ObjectMeta_Name = []\<rparr>"

definition SocketsDirectory :: "string \<Rightarrow> string" where
  "SocketsDirectory baseDir = filepath_Join [baseDir, ''sockets'']"

definition SocketFromNamespaceName :: "string \<Rightarrow> string \<Rightarrow> string \<Rightarrow> string" where
  "SocketFromNamespaceName baseDir namespace name =
     (let sockFile = namespace @ ''_'' @ name @ ''_sock''
      in filepath_Join [SocketsDirectory baseDir, sockFile])"

definition DomainFromSocketPath :: "string \<Rightarrow> api_Domain option \<times> go_error option" where
  "DomainFromSocketPath socketPath =
     (let splitName = strings_SplitN (filepath_Base socketPath) CHR ''_'' 3
      in if length splitName \<noteq> 3
         then (None, Some (ErrorString (''malformed domain socket '' @ socketPath)))
         else
           let namespace = splitName ! 0;
               name = splitName ! 1;
               domain = NewDomainReferenceFromName namespace name
           in (Some domain, None))"

text \<open>
  A path element that \<open>filepath.Clean\<close> keeps as it is: not empty, without a slash, and
  neither \<open>.\<close> nor \<open>..\<close>.
\<close>

definition plain_elem :: "string \<Rightarrow> bool" where
  "plain_elem f \<longleftrightarrow> f \<noteq> [] \<and> CHR ''/'' \<notin> set f \<and> f \<noteq> ''.'' \<and> f \<noteq> ''..''"

subsection \<open>Channel discovery\<close>

text \<open>
  The file system as the client reads it: \<open>os_Stat fs path\<close> is the error of
  \<open>os.Stat(path)\<close> (\<open>None\<close> when the path exists) and \<open>ioutil_ReadDir fs path\<close> is the
  result of \<open>ioutil.ReadDir(path)\<close>, the names of the entries and the error.
\<close>

record filesystem =
  os_Stat :: "string \<Rightarrow> go_error option"
  ioutil_ReadDir :: "string \<Rightarrow> string list \<times> go_error option"

text \<open>
  Modelled from the spec: \<open>diskutils.FileExists\<close> is declared in
  pkg/ephemeral-disk-utils, outside the files at hand; the spec calls it a
  directory-existence check primitive. A path that \<open>os.Stat\<close> finds exists; a path it
  reports as not existing is absent, without an error; any other failure of
  \<open>os.Stat\<close> is returned as the error.
\<close>

definition FileExists :: "filesystem \<Rightarrow> string \<Rightarrow> bool \<times> go_error option" where
  "FileExists fs path =
     (case os_Stat fs path of
        None \<Rightarrow> (True, None)
      | Some err \<Rightarrow> if os_IsNotExist err then (False, None) else (False, Some err))"

definition ListAllSockets :: "filesystem \<Rightarrow> string \<Rightarrow> string list \<times> go_error option" where
  "ListAllSockets fs baseDir =
     (let fileDir = filepath_Join [baseDir, ''sockets''];
          (exists, err) = FileExists fs fileDir
      in if err \<noteq> None then ([], err)
         else if exists = False then ([], None)
         else
           let (files, err) = ioutil_ReadDir fs fileDir
           in if err \<noteq> None then ([], err)
              else (map (\<lambda>file. filepath_Join [fileDir, file]) files, None))"

subsection \<open>Command dispatch\<close>

text \<open>
  The workload definition (\<open>v1.VirtualMachine\<close>) and the secrets (\<open>k8sv1.Secret\<close>) are
  passed through unread, so they are the type parameters \<open>'vm\<close> and \<open>'sec\<close>. A field
  left out of a composite literal has its zero value: \<open>None\<close> for the pointer, the
  empty map, the empty string.
\<close>

record Reply =
  Success :: bool
  Message :: string
  Domain :: "api_Domain option"

record ('vm, 'sec) Args =
  VM :: "'vm option"
  K8Secrets :: "string \<rightharpoonup> 'sec"
  SecretUsageType :: string
  SecretUsageID :: string
  SecretValue :: string

definition zero_Reply :: Reply where
  "zero_Reply = \<lparr>Success = False, Message = [], Domain = None\<rparr>"

definition zero_Args :: "('vm, 'sec) Args" where
  "zero_Args = \<lparr>VM = None, K8Secrets = Map.empty, SecretUsageType = [],
                SecretUsageID = [], SecretValue = []\<rparr>"

text \<open>
  The client owns one connection. \<open>peer\<close> is what the other end of the connection
  does with a call, given the calls made before it: the contents of the reply after
  the call and the error of the call. \<open>calls\<close> is the sequence of requests sent over
  the connection so far, each a command name with its arguments.
\<close>

record ('vm, 'sec) VirtLauncherClient =
  peer :: "(string \<times> ('vm, 'sec) Args) list \<Rightarrow> string \<Rightarrow> ('vm, 'sec) Args
             \<Rightarrow> Reply \<times> go_error option"
  calls :: "(string \<times> ('vm, 'sec) Args) list"

text \<open>
  \<open>c.client.Call(cmd, args, reply)\<close>: the request is sent, and the reply and the
  error are the peer's.
\<close>

definition Call ::
  "('vm, 'sec) VirtLauncherClient \<Rightarrow> string \<Rightarrow> ('vm, 'sec) Args
     \<Rightarrow> ('vm, 'sec) VirtLauncherClient \<times> Reply \<times> go_error option" where
  "Call c cmd args =
     (let (reply, err) = peer c (calls c) cmd args
      in (c\<lparr>calls := calls c @ [(cmd, args)]\<rparr>, reply, err))"

definition IsDisconnected :: "go_error option \<Rightarrow> bool" where
  "IsDisconnected err =
     (if err = Some ErrShutdown \<or> err = Some ErrUnexpectedEOF \<or> err = Some EOF
      then True else False)"

definition genericSendCmd ::
  "('vm, 'sec) VirtLauncherClient \<Rightarrow> ('vm, 'sec) Args \<Rightarrow> string
     \<Rightarrow> ('vm, 'sec) VirtLauncherClient \<times> Reply \<times> go_error option" where
  "genericSendCmd c args cmd =
     (let (c', reply, err) = Call c cmd args
      in if IsDisconnected err then (c', reply, err)
         else (case err of
                 Some e \<Rightarrow> (c', reply, Some (ErrUnknownSend cmd e))
               | None \<Rightarrow>
                   if Success reply \<noteq> True
                   then (c', reply, Some (ErrServerFailed cmd (Message reply)))
                   else (c', reply, None)))"

definition ShutdownVirtualMachine ::
  "('vm, 'sec) VirtLauncherClient \<Rightarrow> 'vm option
     \<Rightarrow> ('vm, 'sec) VirtLauncherClient \<times> go_error option" where
  "ShutdownVirtualMachine c vm =
     (let cmd = ''Launcher.Shutdown'';
          args = zero_Args\<lparr>VM := vm\<rparr>;
          (c', _, err) = genericSendCmd c args cmd
      in (c', err))"

definition KillVirtualMachine ::
  "('vm, 'sec) VirtLauncherClient \<Rightarrow> 'vm option
     \<Rightarrow> ('vm, 'sec) VirtLauncherClient \<times> go_error option" where
  "KillVirtualMachine c vm =
     (let cmd = ''Launcher.Kill'';
          args = zero_Args\<lparr>VM := vm\<rparr>;
          (c', _, err) = genericSendCmd c args cmd
      in (c', err))"

definition GetDomain ::
  "('vm, 'sec) VirtLauncherClient
     \<Rightarrow> ('vm, 'sec) VirtLauncherClient \<times> api_Domain option \<times> bool \<times> go_error option" where
  "GetDomain c =
     (let domain = zero_Domain;
          cmd = ''Launcher.GetDomain'';
          exists = False;
          args = zero_Args;
          (c', reply, err) = genericSendCmd c args cmd
      in if err \<noteq> None then (c', None, exists, err)
         else (case Domain reply of
                 Some d \<Rightarrow> (c', Some d, True, None)
               | None \<Rightarrow> (c', Some domain, exists, None)))"

definition SyncVirtualMachine ::
  "('vm, 'sec) VirtLauncherClient \<Rightarrow> 'vm option \<Rightarrow> (string \<rightharpoonup> 'sec)
     \<Rightarrow> ('vm, 'sec) VirtLauncherClient \<times> go_error option" where
  "SyncVirtualMachine c vm secrets =
     (let cmd = ''Launcher.Sync'';
          args = zero_Args\<lparr>VM := vm, K8Secrets := secrets\<rparr>;
          (c', _, err) = genericSendCmd c args cmd
      in (c', err))"

definition SyncSecret ::
  "('vm, 'sec) VirtLauncherClient \<Rightarrow> 'vm option \<Rightarrow> string \<Rightarrow> string \<Rightarrow> string
     \<Rightarrow> ('vm, 'sec) VirtLauncherClient \<times> go_error option" where
  "SyncSecret c vm usageType usageID secretValue =
     (let cmd = ''Launcher.SyncSecret'';
          args = zero_Args\<lparr>VM := vm, SecretUsageType := usageType,
                            SecretUsageID := usageID, SecretValue := secretValue\<rparr>;
          (c', _, err) = genericSendCmd c args cmd
      in (c', err))"

definition Ping ::
  "('vm, 'sec) VirtLauncherClient \<Rightarrow> ('vm, 'sec) VirtLauncherClient \<times> go_error option" where
  "Ping c =
     (let cmd = ''Launcher.Ping'';
          args = zero_Args;
          (c', _, err) = genericSendCmd c args cmd
      in (c', err))"

text \<open>
  The directory is absent when \<open>os.Stat\<close> fails on it with an error for which
  \<open>os.IsNotExist\<close> holds.
\<close>

definition dir_absent :: "filesystem \<Rightarrow> string \<Rightarrow> bool" where
  "dir_absent fs path = (case os_Stat fs path of None \<Rightarrow> False | Some err \<Rightarrow> os_IsNotExist err)"

text \<open>
  The client after one more request: the command name and its arguments are added
  to the requests sent.
\<close>

definition sent :: "('vm, 'sec) VirtLauncherClient \<Rightarrow> string \<Rightarrow> ('vm, 'sec) Args
    \<Rightarrow> ('vm, 'sec) VirtLauncherClient" where
  "sent c cmd args = c\<lparr>calls := calls c @ [(cmd, args)]\<rparr>"

text \<open>
  A client on a fresh connection whose peer answers every call with the same reply
  and error.
\<close>

definition answering :: "Reply \<Rightarrow> go_error option \<Rightarrow> ('vm, 'sec) VirtLauncherClient" where
  "answering reply err = \<lparr>peer = (\<lambda>_ _ _. (reply, err)), calls = []\<rparr>"

text \<open>
  What follows the last slash of a string, and the whole string when it has no slash.
\<close>

definition last_elem :: "string \<Rightarrow> string" where
  "last_elem s = rev (takeWhile (\<lambda>c. c \<noteq> CHR ''/'') (rev s))"

text \<open>
  The directory does not go away between the two reads of \<open>ListAllSockets\<close>: when
  \<open>os.Stat\<close> finds it, \<open>ioutil.ReadDir\<close> does not fail on it with an error for which
  \<open>os.IsNotExist\<close> holds.
\<close>

definition dir_stable :: "filesystem \<Rightarrow> string \<Rightarrow> bool" where
  "dir_stable fs path =
     (case os_Stat fs path of
        Some _ \<Rightarrow> True
      | None \<Rightarrow>
          (case snd (ioutil_ReadDir fs path) of
             None \<Rightarrow> True
           | Some err \<Rightarrow> \<not> os_IsNotExist err))"

section \<open>Properties\<close>

subsection \<open>Paths\<close>

lemma split_sep_not_Nil: "split_sep c xs \<noteq> []"
  by (induction xs) (auto split: list.splits)

lemma split_sep_plain: "c \<notin> set f \<Longrightarrow> split_sep c f = [f]"
  by (induction f) auto

lemma split_sep_append:
  "split_sep c (xs @ c # ys) = split_sep c xs @ split_sep c ys"
proof (induction xs)
  case Nil
  show ?case by simp
next
  case (Cons x xs)
  show ?case
  proof (cases "x = c")
    case True
    with Cons show ?thesis by simp
  next
    case False
    obtain y ys' where s: "split_sep c xs = y # ys'"
      using split_sep_not_Nil [of c xs] by (cases "split_sep c xs") auto
    with False Cons show ?thesis by simp
  qed
qed

lemma strings_Join_snoc:
  "strings_Join (out @ [f]) sep = (if out = [] then f else strings_Join out sep @ sep @ f)"
  by (induction out sep rule: strings_Join.induct) auto

lemma Base_suffix:
  assumes "f \<noteq> []" "CHR ''/'' \<notin> set f" "x = [] \<or> last x = CHR ''/''"
  shows "filepath_Base (x @ f) = f"
proof -
  have "hd (rev f) \<noteq> CHR ''/''"
    using assms(1,2) by (metis hd_rev last_in_set)
  moreover have "rev f \<noteq> []" using assms(1) by simp
  ultimately have d: "dropWhile (\<lambda>c. c = CHR ''/'') (rev f @ rev x) = rev f @ rev x"
    by (cases "rev f") auto
  have a: "takeWhile (\<lambda>c. c \<noteq> CHR ''/'') (rev f @ rev x) =
      rev f @ takeWhile (\<lambda>c. c \<noteq> CHR ''/'') (rev x)"
    using assms(2) by (intro takeWhile_append2) auto
  have "takeWhile (\<lambda>c. c \<noteq> CHR ''/'') (rev x) = []"
  proof (cases "x = []")
    case True
    then show ?thesis by simp
  next
    case False
    with assms(3) have "hd (rev x) = CHR ''/''" by (simp add: hd_rev)
    with False show ?thesis by (cases "rev x") auto
  qed
  with a have t: "takeWhile (\<lambda>c. c \<noteq> CHR ''/'') (rev f @ rev x) = rev f" by simp
  show ?thesis using assms(1) by (simp add: filepath_Base_def d t)
qed

lemma Clean_last_elem:
  assumes "plain_elem f" "p = f \<or> (\<exists>d. p = d @ CHR ''/'' # f)"
  shows "\<exists>x. filepath_Clean p = x @ f \<and> (x = [] \<or> last x = CHR ''/'')"
proof -
  have f: "f \<noteq> []" "CHR ''/'' \<notin> set f" "f \<noteq> ''.''" "f \<noteq> ''..''"
    using assms(1) by (auto simp: plain_elem_def)
  have pne: "p \<noteq> []" using assms(2) f by auto
  obtain es where es: "split_sep CHR ''/'' p = es @ [f]"
    using assms(2) f(2) by (auto simp: split_sep_plain split_sep_append)
  define rooted where "rooted = (hd p = CHR ''/'')"
  define out where "out = foldl (clean_step rooted) [] es"
  have fo: "foldl (clean_step rooted) [] (split_sep CHR ''/'' p) = out @ [f]"
    using f by (simp add: es out_def clean_step_def)
  have "filepath_Clean p = (if rooted then ''/'' else []) @ strings_Join (out @ [f]) ''/''"
    using pne f(1) by (simp add: filepath_Clean_def rooted_def [symmetric] fo Let_def strings_Join_snoc)
  then show ?thesis
    by (cases "out = []") (auto simp: strings_Join_snoc)
qed

lemma Base_Join_plain:
  assumes "plain_elem f"
  shows "filepath_Base (filepath_Join [d, f]) = f"
proof -
  have f: "f \<noteq> []" "CHR ''/'' \<notin> set f"
    using assms by (auto simp: plain_elem_def)
  have "\<exists>p. filepath_Join [d, f] = filepath_Clean p \<and> (p = f \<or> (\<exists>d'. p = d' @ CHR ''/'' # f))"
  proof (cases "d = []")
    case True
    then show ?thesis using f by (cases f) (auto simp: filepath_Join_def)
  next
    case False
    then show ?thesis by (cases d) (auto simp: filepath_Join_def)
  qed
  then obtain p where p: "filepath_Join [d, f] = filepath_Clean p"
    "p = f \<or> (\<exists>d'. p = d' @ CHR ''/'' # f)" by blast
  from Clean_last_elem [OF assms p(2)] obtain x where
    "filepath_Clean p = x @ f" "x = [] \<or> last x = CHR ''/''" by blast
  then show ?thesis using Base_suffix [OF f] p(1) by simp
qed

lemma split_loop_two:
  assumes "CHR ''_'' \<notin> set a"
  shows "split_loop 2 (a @ CHR ''_'' # n) CHR ''_'' =
    (if CHR ''_'' \<in> set n
     then [a, takeWhile (\<lambda>c. c \<noteq> CHR ''_'') n, tl (dropWhile (\<lambda>c. c \<noteq> CHR ''_'') n)]
     else [a, n])"
proof -
  have t: "takeWhile (\<lambda>c. c \<noteq> CHR ''_'') (a @ CHR ''_'' # n) = a"
    using assms by (induction a) auto
  have d: "dropWhile (\<lambda>c. c \<noteq> CHR ''_'') (a @ CHR ''_'' # n) = CHR ''_'' # n"
    using assms by (induction a) auto
  have "split_loop (Suc (Suc 0)) (a @ CHR ''_'' # n) CHR ''_'' =
      a # split_loop (Suc 0) n CHR ''_''"
    by (simp add: t d)
  then show ?thesis by (simp add: numeral_2_eq_2)
qed

lemma SplitN_sockFile:
  assumes "CHR ''_'' \<notin> set ns"
  shows "\<exists>rest. strings_SplitN (ns @ ''_'' @ name @ ''_sock'') CHR ''_'' 3 =
     [ns, takeWhile (\<lambda>c. c \<noteq> CHR ''_'') name, rest]"
proof -
  have "CHR ''_'' \<in> set (name @ ''_sock'')" by simp
  moreover have "takeWhile (\<lambda>c. c \<noteq> CHR ''_'') (name @ ''_sock'') =
      takeWhile (\<lambda>c. c \<noteq> CHR ''_'') name"
    by (induction name) auto
  ultimately show ?thesis
    using split_loop_two [OF assms, of "name @ ''_sock''"]
    by (simp add: strings_SplitN_def)
qed

lemma sockFile_plain:
  assumes "CHR ''/'' \<notin> set ns" "CHR ''/'' \<notin> set name"
  shows "plain_elem (ns @ ''_'' @ name @ ''_sock'')"
proof -
  have "CHR ''_'' \<in> set (ns @ ''_'' @ name @ ''_sock'')" by simp
  moreover have "CHR ''_'' \<notin> set ''.''" "CHR ''_'' \<notin> set ''..''" by simp_all
  ultimately have "ns @ ''_'' @ name @ ''_sock'' \<noteq> ''.''" "ns @ ''_'' @ name @ ''_sock'' \<noteq> ''..''"
    by metis+
  then show ?thesis using assms by (simp add: plain_elem_def)
qed

lemma decode_derived:
  assumes "CHR ''_'' \<notin> set ns" "CHR ''/'' \<notin> set ns" "CHR ''/'' \<notin> set name"
  shows "DomainFromSocketPath (SocketFromNamespaceName baseDir ns name) =
    (Some \<lparr>ObjectMeta_Namespace = ns,
           ObjectMeta_Name = takeWhile (\<lambda>c. c \<noteq> CHR ''_'') name\<rparr>, None)"
proof -
  have b: "filepath_Base (SocketFromNamespaceName baseDir ns name) = ns @ ''_'' @ name @ ''_sock''"
    unfolding SocketFromNamespaceName_def Let_def
    by (rule Base_Join_plain [OF sockFile_plain [OF assms(2,3)]])
  from SplitN_sockFile [OF assms(1), of name] obtain rest where
    "strings_SplitN (ns @ ''_'' @ name @ ''_sock'') CHR ''_'' 3 =
       [ns, takeWhile (\<lambda>c. c \<noteq> CHR ''_'') name, rest]" by blast
  then show ?thesis
    by (simp add: DomainFromSocketPath_def b NewDomainReferenceFromName_def)
qed

lemma decode_roundtrip:
  assumes "CHR ''_'' \<notin> set ns" "CHR ''/'' \<notin> set ns"
    "CHR ''_'' \<notin> set name" "CHR ''/'' \<notin> set name"
  shows "DomainFromSocketPath (SocketFromNamespaceName baseDir ns name) =
    (Some \<lparr>ObjectMeta_Namespace = ns, ObjectMeta_Name = name\<rparr>, None)"
  using decode_derived [OF assms(1,2,4), of baseDir] assms(3)
  by (auto simp: takeWhile_eq_all_conv)


lemma split_loop_length: "1 \<le> length (split_loop k s c) \<and> length (split_loop k s c) \<le> Suc k"
  by (induction k s c rule: split_loop.induct) auto

lemma count_list_split_first:
  assumes "1 \<le> count_list s c"
  shows "\<exists>a r. s = a @ c # r \<and> c \<notin> set a \<and> count_list s c = Suc (count_list r c)"
proof -
  from assms have "c \<in> set s"
    by (metis count_list_0_iff not_one_le_zero)
  then obtain a r where s: "s = a @ c # r" "c \<notin> set a"
    by (meson split_list_first)
  then have "count_list a c = 0" by (simp add: count_list_0_iff)
  with s show ?thesis by (auto simp: count_list_append)
qed

lemma last_elem_plain:
  assumes "CHR ''/'' \<notin> set s"
  shows "last_elem s = s"
proof -
  have "takeWhile (\<lambda>c. c \<noteq> CHR ''/'') (rev s) = rev s"
    using assms by (auto simp: takeWhile_eq_all_conv)
  then show ?thesis unfolding last_elem_def by (simp only: rev_rev_ident)
qed

lemma last_elem_no_slash: "CHR ''/'' \<notin> set (last_elem s)"
  by (auto simp: last_elem_def dest: set_takeWhileD)

lemma last_elem_subset: "set (last_elem s) \<subseteq> set s"
  by (auto simp: last_elem_def dest: set_takeWhileD)

lemma last_elem_decomp: "s = last_elem s \<or> (\<exists>q. s = q @ CHR ''/'' # last_elem s)"
proof (cases "CHR ''/'' \<in> set s")
  case False
  then show ?thesis by (simp add: last_elem_plain)
next
  case True
  then obtain q r where s: "s = q @ CHR ''/'' # r" "CHR ''/'' \<notin> set r"
    by (meson split_list_last)
  have "takeWhile (\<lambda>c. c \<noteq> CHR ''/'') (rev r @ CHR ''/'' # rev q) = rev r"
    using s(2) by (induction r rule: rev_induct) auto
  then have "last_elem s = r" by (simp add: last_elem_def s(1))
  with s(1) show ?thesis by metis
qed

lemma Base_Join_last:
  assumes "plain_elem f" and "e = f \<or> (\<exists>q. e = q @ CHR ''/'' # f)"
  shows "filepath_Base (filepath_Join [d, e]) = f"
proof -
  have f: "f \<noteq> []" "CHR ''/'' \<notin> set f"
    using assms(1) by (auto simp: plain_elem_def)
  have e: "e \<noteq> []" using assms(2) f(1) by auto
  have "\<exists>p. filepath_Join [d, e] = filepath_Clean p \<and> (p = f \<or> (\<exists>d'. p = d' @ CHR ''/'' # f))"
  proof (cases "d = []")
    case True
    then have "filepath_Join [d, e] = filepath_Clean e"
      using e by (cases e) (auto simp: filepath_Join_def)
    with assms(2) show ?thesis by blast
  next
    case False
    then have j: "filepath_Join [d, e] = filepath_Clean (d @ CHR ''/'' # e)"
      by (cases d) (auto simp: filepath_Join_def)
    from assms(2) have "\<exists>d'. d @ CHR ''/'' # e = d' @ CHR ''/'' # f"
    proof
      assume "e = f"
      then show ?thesis by blast
    next
      assume "\<exists>q. e = q @ CHR ''/'' # f"
      then obtain q where "e = q @ CHR ''/'' # f" by blast
      then have "d @ CHR ''/'' # e = (d @ CHR ''/'' # q) @ CHR ''/'' # f" by simp
      then show ?thesis by blast
    qed
    with j show ?thesis by blast
  qed
  then obtain p where p: "filepath_Join [d, e] = filepath_Clean p"
    "p = f \<or> (\<exists>d'. p = d' @ CHR ''/'' # f)" by blast
  from Clean_last_elem [OF assms(1) p(2)] obtain x where
    "filepath_Clean p = x @ f" "x = [] \<or> last x = CHR ''/''" by blast
  then show ?thesis using Base_suffix [OF f] p(1) by simp
qed

lemma Base_derived:
  assumes "CHR ''/'' \<notin> set name"
  shows "filepath_Base (SocketFromNamespaceName baseDir namespace name) =
    last_elem namespace @ ''_'' @ name @ ''_sock''"
proof -
  have pl: "plain_elem (last_elem namespace @ ''_'' @ name @ ''_sock'')"
    by (rule sockFile_plain [OF last_elem_no_slash assms])
  from last_elem_decomp [of namespace]
  have "namespace @ ''_'' @ name @ ''_sock'' = last_elem namespace @ ''_'' @ name @ ''_sock'' \<or>
    (\<exists>q. namespace @ ''_'' @ name @ ''_sock'' =
       q @ CHR ''/'' # (last_elem namespace @ ''_'' @ name @ ''_sock''))"
  proof
    assume "namespace = last_elem namespace"
    then show ?thesis by simp
  next
    assume "\<exists>q. namespace = q @ CHR ''/'' # last_elem namespace"
    then obtain q where "namespace = q @ CHR ''/'' # last_elem namespace" by blast
    then have "namespace @ ''_'' @ name @ ''_sock'' =
       q @ CHR ''/'' # (last_elem namespace @ ''_'' @ name @ ''_sock'')"
      by (metis append_Cons append_assoc)
    then show ?thesis by blast
  qed
  from Base_Join_last [OF pl this] show ?thesis
    by (simp add: SocketFromNamespaceName_def)
qed

lemma SplitN_truncated:
  assumes "CHR ''_'' \<notin> set a" and "CHR ''_'' \<in> set name"
  shows "strings_SplitN (a @ ''_'' @ name @ ''_sock'') CHR ''_'' 3 =
     [a, takeWhile (\<lambda>c. c \<noteq> CHR ''_'') name,
      tl (dropWhile (\<lambda>c. c \<noteq> CHR ''_'') name) @ ''_sock'']"
proof -
  have m: "CHR ''_'' \<in> set (name @ ''_sock'')" by simp
  have t: "takeWhile (\<lambda>c. c \<noteq> CHR ''_'') (name @ ''_sock'') =
      takeWhile (\<lambda>c. c \<noteq> CHR ''_'') name"
    by (induction name) auto
  have d: "tl (dropWhile (\<lambda>c. c \<noteq> CHR ''_'') (name @ ''_sock'')) =
      tl (dropWhile (\<lambda>c. c \<noteq> CHR ''_'') name) @ ''_sock''"
    using assms(2) by (induction name) auto
  show ?thesis
    using split_loop_two [OF assms(1), of "name @ ''_sock''"] m
    by (simp add: strings_SplitN_def t d)
qed

subsection \<open>Channel addressing\<close>

text \<open>
  C1, as stated, fails for a namespace that holds a slash: \<open>filepath.Join\<close> makes the
  part before the slash a directory of the address, and \<open>filepath.Base\<close> drops it. The
  namespace \<open>a/b\<close> has no underscore and comes back as \<open>b\<close>.
\<close>

theorem decode_derived_address_counterexample:
  "CHR ''_'' \<notin> set ''a/b'' \<and> CHR ''_'' \<notin> set ''c'' \<and>
   SocketFromNamespaceName ''/run/x'' ''a/b'' ''c'' = ''/run/x/sockets/a/b_c_sock'' \<and>
   DomainFromSocketPath (SocketFromNamespaceName ''/run/x'' ''a/b'' ''c'') =
     (Some \<lparr>ObjectMeta_Namespace = ''b'', ObjectMeta_Name = ''c''\<rparr>, None) \<and>
   DomainFromSocketPath (SocketFromNamespaceName ''/run/x'' ''a/b'' ''c'') \<noteq>
     (Some \<lparr>ObjectMeta_Namespace = ''a/b'', ObjectMeta_Name = ''c''\<rparr>, None)"
  by code_simp

text \<open>
  C1, amended. For every base directory, and every namespace and name that hold
  neither an underscore nor a slash, decoding the derived address gives back the
  namespace and the name, and no error.
\<close>

theorem decode_derived_address:
  assumes "CHR ''_'' \<notin> set namespace" "CHR ''/'' \<notin> set namespace"
    "CHR ''_'' \<notin> set name" "CHR ''/'' \<notin> set name"
  shows "DomainFromSocketPath (SocketFromNamespaceName baseDir namespace name) =
    (Some \<lparr>ObjectMeta_Namespace = namespace, ObjectMeta_Name = name\<rparr>, None)"
  using assms by (rule decode_roundtrip)

text \<open>
  The identity \<open>default\<close>, \<open>vm1\<close> under \<open>/run/x\<close> comes back from its address.
\<close>

theorem decode_derived_address_witness:
  "DomainFromSocketPath (SocketFromNamespaceName ''/run/x'' ''default'' ''vm1'') =
    (Some \<lparr>ObjectMeta_Namespace = ''default'', ObjectMeta_Name = ''vm1''\<rparr>, None)"
  by (rule decode_derived_address) simp_all

text \<open>
  C3. The final segment of the path is split at underscores into at most three
  pieces, and never into none. When fewer than three pieces result,
  \<open>DomainFromSocketPath\<close> returns no domain and the error
  \<open>malformed domain socket\<close> followed by the path; when three result, it returns a
  domain and no error.
\<close>

theorem DomainFromSocketPath_malformed:
  "1 \<le> length (strings_SplitN (filepath_Base socketPath) CHR ''_'' 3) \<and>
   length (strings_SplitN (filepath_Base socketPath) CHR ''_'' 3) \<le> 3 \<and>
   (length (strings_SplitN (filepath_Base socketPath) CHR ''_'' 3) < 3 \<longrightarrow>
      DomainFromSocketPath socketPath =
        (None, Some (ErrorString (''malformed domain socket '' @ socketPath)))) \<and>
   (length (strings_SplitN (filepath_Base socketPath) CHR ''_'' 3) = 3 \<longrightarrow>
      (\<exists>domain. DomainFromSocketPath socketPath = (Some domain, None)))"
proof -
  have "strings_SplitN (filepath_Base socketPath) CHR ''_'' 3 =
      split_loop 2 (filepath_Base socketPath) CHR ''_''"
    by (simp add: strings_SplitN_def)
  then show ?thesis
    using split_loop_length [of 2 "filepath_Base socketPath" "CHR ''_''"]
    by (simp add: DomainFromSocketPath_def Let_def)
qed

text \<open>
  The path \<open>/run/x/sockets/default_vm1\<close> has a final segment of two pieces and is
  malformed; \<open>/run/x/sockets/default_vm1_sock\<close> has three and decodes.
\<close>

theorem DomainFromSocketPath_malformed_witness:
  "DomainFromSocketPath ''/run/x/sockets/default_vm1'' =
     (None, Some (ErrorString ''malformed domain socket /run/x/sockets/default_vm1'')) \<and>
   (\<exists>domain. DomainFromSocketPath ''/run/x/sockets/default_vm1_sock'' = (Some domain, None))"
proof -
  have a: "length (strings_SplitN (filepath_Base ''/run/x/sockets/default_vm1'') CHR ''_'' 3) < 3"
    by code_simp
  have b: "length (strings_SplitN (filepath_Base ''/run/x/sockets/default_vm1_sock'') CHR ''_'' 3) = 3"
    by code_simp
  from a DomainFromSocketPath_malformed [of "''/run/x/sockets/default_vm1''"]
  have "DomainFromSocketPath ''/run/x/sockets/default_vm1'' =
     (None, Some (ErrorString (''malformed domain socket '' @ ''/run/x/sockets/default_vm1'')))"
    by blast
  moreover from b DomainFromSocketPath_malformed [of "''/run/x/sockets/default_vm1_sock''"]
  have "\<exists>domain. DomainFromSocketPath ''/run/x/sockets/default_vm1_sock'' = (Some domain, None)"
    by blast
  ultimately show ?thesis by simp
qed

text \<open>
  C8, as stated, fails for namespaces that hold a slash: \<open>a/b\<close> and \<open>a//b\<close> are
  different, hold no underscore, and with the name \<open>n\<close> they give the same address,
  since \<open>filepath.Join\<close> cleans the doubled slash away.
\<close>

theorem SocketFromNamespaceName_inj_counterexample:
  "(''a/b'', ''n'') \<noteq> (''a//b'', ''n'') \<and>
   CHR ''_'' \<notin> set ''a/b'' \<and> CHR ''_'' \<notin> set ''a//b'' \<and> CHR ''_'' \<notin> set ''n'' \<and>
   SocketFromNamespaceName ''/run/x'' ''a/b'' ''n'' =
   SocketFromNamespaceName ''/run/x'' ''a//b'' ''n''"
  by code_simp

text \<open>
  C8, amended. \<open>SocketFromNamespaceName\<close> is a function of its three arguments, so
  equal arguments give equal addresses. Base directory \<open>/run/x\<close> with namespace
  \<open>default\<close> and name \<open>vm1\<close> gives \<open>/run/x/sockets/default_vm1_sock\<close>. For identities
  whose namespace and name hold neither an underscore nor a slash, two addresses
  under one base directory are equal exactly when the identities are equal.
\<close>

theorem SocketFromNamespaceName_inj:
  assumes "CHR ''_'' \<notin> set namespace" "CHR ''/'' \<notin> set namespace"
    "CHR ''_'' \<notin> set name" "CHR ''/'' \<notin> set name"
    "CHR ''_'' \<notin> set namespace'" "CHR ''/'' \<notin> set namespace'"
    "CHR ''_'' \<notin> set name'" "CHR ''/'' \<notin> set name'"
  shows "SocketFromNamespaceName ''/run/x'' ''default'' ''vm1'' = ''/run/x/sockets/default_vm1_sock'' \<and>
    (SocketFromNamespaceName baseDir namespace name =
       SocketFromNamespaceName baseDir namespace' name'
     \<longleftrightarrow> namespace = namespace' \<and> name = name')"
proof -
  have ex: "SocketFromNamespaceName ''/run/x'' ''default'' ''vm1'' = ''/run/x/sockets/default_vm1_sock''"
    by code_simp
  have "namespace = namespace' \<and> name = name'"
    if "SocketFromNamespaceName baseDir namespace name =
       SocketFromNamespaceName baseDir namespace' name'"
  proof -
    have "DomainFromSocketPath (SocketFromNamespaceName baseDir namespace name) =
        DomainFromSocketPath (SocketFromNamespaceName baseDir namespace' name')"
      using that by simp
    then show ?thesis
      by (simp add: decode_roundtrip [OF assms(1-4)] decode_roundtrip [OF assms(5-8)])
  qed
  with ex show ?thesis by blast
qed

text \<open>
  The identities \<open>default\<close>, \<open>vm1\<close> and \<open>default\<close>, \<open>vm2\<close> have different addresses.
\<close>

theorem SocketFromNamespaceName_inj_witness:
  "SocketFromNamespaceName ''/run/x'' ''default'' ''vm1'' \<noteq>
   SocketFromNamespaceName ''/run/x'' ''default'' ''vm2''"
proof -
  have "SocketFromNamespaceName ''/run/x'' ''default'' ''vm1'' =
       SocketFromNamespaceName ''/run/x'' ''default'' ''vm2''
     \<longleftrightarrow> ''default'' = ''default'' \<and> ''vm1'' = ''vm2''"
    by (rule SocketFromNamespaceName_inj [THEN conjunct2]) simp_all
  then show ?thesis by simp
qed

text \<open>
  C9. The literal suffix is never checked: whenever the final segment of the path
  holds at least two underscores, it reads \<open>a_b_c\<close> with no underscore in \<open>a\<close> and
  \<open>b\<close>, and decoding succeeds with namespace \<open>a\<close> and name \<open>b\<close>, whatever \<open>c\<close> is.
\<close>

theorem DomainFromSocketPath_suffix_unchecked:
  assumes "2 \<le> count_list (filepath_Base socketPath) CHR ''_''"
  shows "\<exists>a b c. filepath_Base socketPath = a @ ''_'' @ b @ ''_'' @ c \<and>
     CHR ''_'' \<notin> set a \<and> CHR ''_'' \<notin> set b \<and>
     DomainFromSocketPath socketPath =
       (Some \<lparr>ObjectMeta_Namespace = a, ObjectMeta_Name = b\<rparr>, None)"
proof -
  from assms obtain a r where a: "filepath_Base socketPath = a @ CHR ''_'' # r"
    "CHR ''_'' \<notin> set a" "count_list (filepath_Base socketPath) CHR ''_'' = Suc (count_list r CHR ''_'')"
    using count_list_split_first [of "filepath_Base socketPath" "CHR ''_''"] by auto
  with assms have "1 \<le> count_list r CHR ''_''" by simp
  then obtain b c where b: "r = b @ CHR ''_'' # c" "CHR ''_'' \<notin> set b"
    using count_list_split_first [of r "CHR ''_''"] by auto
  have t: "takeWhile (\<lambda>x. x \<noteq> CHR ''_'') (b @ CHR ''_'' # c) = b"
    using b(2) by (induction b) auto
  have d: "dropWhile (\<lambda>x. x \<noteq> CHR ''_'') (b @ CHR ''_'' # c) = CHR ''_'' # c"
    using b(2) by (induction b) auto
  have "strings_SplitN (filepath_Base socketPath) CHR ''_'' 3 = [a, b, c]"
    using split_loop_two [OF a(2), of r] by (simp add: strings_SplitN_def a(1) b(1) t d)
  then have "DomainFromSocketPath socketPath =
       (Some \<lparr>ObjectMeta_Namespace = a, ObjectMeta_Name = b\<rparr>, None)"
    by (simp add: DomainFromSocketPath_def NewDomainReferenceFromName_def)
  with a(1,2) b show ?thesis by auto
qed

text \<open>
  The path \<open>a_b_c\<close>, whose third piece is not \<open>sock\<close>, decodes to namespace \<open>a\<close> and
  name \<open>b\<close>.
\<close>

theorem DomainFromSocketPath_suffix_unchecked_witness:
  "DomainFromSocketPath ''a_b_c'' =
     (Some \<lparr>ObjectMeta_Namespace = ''a'', ObjectMeta_Name = ''b''\<rparr>, None)"
proof -
  have "2 \<le> count_list (filepath_Base ''a_b_c'') CHR ''_''" by code_simp
  from DomainFromSocketPath_suffix_unchecked [OF this] obtain a b c where
    h: "filepath_Base ''a_b_c'' = a @ ''_'' @ b @ ''_'' @ c"
       "CHR ''_'' \<notin> set a" "CHR ''_'' \<notin> set b"
       "DomainFromSocketPath ''a_b_c'' =
          (Some \<lparr>ObjectMeta_Namespace = a, ObjectMeta_Name = b\<rparr>, None)"
    by blast
  have "DomainFromSocketPath ''a_b_c'' =
     (Some \<lparr>ObjectMeta_Namespace = ''a'', ObjectMeta_Name = ''b''\<rparr>, None)"
    by code_simp
  with h(4) show ?thesis by simp
qed

text \<open>
  C10, as stated, fails for a name that holds a slash after its underscore: for
  namespace \<open>n\<close> and name \<open>a_b/c\<close> the final segment of the address is \<open>c_sock\<close>, which
  has two pieces only, and decoding fails with the malformed error.
\<close>

theorem decode_truncates_name_counterexample:
  "CHR ''_'' \<notin> set ''n'' \<and> CHR ''_'' \<in> set ''a_b/c'' \<and>
   DomainFromSocketPath (SocketFromNamespaceName ''/run/x'' ''n'' ''a_b/c'') =
     (None, Some (ErrorString ''malformed domain socket /run/x/sockets/n_a_b/c_sock''))"
  by code_simp

text \<open>
  C10, amended. When the namespace holds no underscore, and the name holds an
  underscore and no slash, decoding the derived address does not fail. The final
  segment of the address splits into three pieces: what follows the last slash of the
  namespace (the namespace itself when it has no slash), the part of the name before
  its first underscore, and the rest of the name with the suffix. The decoded name is
  the second piece, which is not the name: the name is that piece, an underscore and
  what the third piece took.
\<close>

theorem decode_truncates_name:
  assumes "CHR ''_'' \<notin> set namespace" and "CHR ''_'' \<in> set name"
    and "CHR ''/'' \<notin> set name"
  shows "strings_SplitN (filepath_Base (SocketFromNamespaceName baseDir namespace name))
        CHR ''_'' 3 =
      [last_elem namespace, takeWhile (\<lambda>c. c \<noteq> CHR ''_'') name,
       tl (dropWhile (\<lambda>c. c \<noteq> CHR ''_'') name) @ ''_sock''] \<and>
    DomainFromSocketPath (SocketFromNamespaceName baseDir namespace name) =
      (Some \<lparr>ObjectMeta_Namespace = last_elem namespace,
             ObjectMeta_Name = takeWhile (\<lambda>c. c \<noteq> CHR ''_'') name\<rparr>, None) \<and>
    takeWhile (\<lambda>c. c \<noteq> CHR ''_'') name \<noteq> name \<and>
    name = takeWhile (\<lambda>c. c \<noteq> CHR ''_'') name @ ''_'' @
             tl (dropWhile (\<lambda>c. c \<noteq> CHR ''_'') name) \<and>
    (CHR ''/'' \<notin> set namespace \<longrightarrow> last_elem namespace = namespace)"
proof -
  have a: "CHR ''_'' \<notin> set (last_elem namespace)"
    using assms(1) last_elem_subset [of namespace] by blast
  have s: "strings_SplitN (filepath_Base (SocketFromNamespaceName baseDir namespace name))
        CHR ''_'' 3 =
      [last_elem namespace, takeWhile (\<lambda>c. c \<noteq> CHR ''_'') name,
       tl (dropWhile (\<lambda>c. c \<noteq> CHR ''_'') name) @ ''_sock'']"
    unfolding Base_derived [OF assms(3)] by (rule SplitN_truncated [OF a assms(2)])
  then have d: "DomainFromSocketPath (SocketFromNamespaceName baseDir namespace name) =
      (Some \<lparr>ObjectMeta_Namespace = last_elem namespace,
             ObjectMeta_Name = takeWhile (\<lambda>c. c \<noteq> CHR ''_'') name\<rparr>, None)"
    by (simp add: DomainFromSocketPath_def NewDomainReferenceFromName_def)
  have n: "takeWhile (\<lambda>c. c \<noteq> CHR ''_'') name \<noteq> name"
    using assms(2) by (auto simp: takeWhile_eq_all_conv)
  have "dropWhile (\<lambda>c. c \<noteq> CHR ''_'') name =
      CHR ''_'' # tl (dropWhile (\<lambda>c. c \<noteq> CHR ''_'') name)"
    using assms(2) by (induction name) auto
  then have "takeWhile (\<lambda>c. c \<noteq> CHR ''_'') name @ ''_'' @
      tl (dropWhile (\<lambda>c. c \<noteq> CHR ''_'') name) =
      takeWhile (\<lambda>c. c \<noteq> CHR ''_'') name @ dropWhile (\<lambda>c. c \<noteq> CHR ''_'') name"
    by simp
  then have r: "name = takeWhile (\<lambda>c. c \<noteq> CHR ''_'') name @ ''_'' @
             tl (dropWhile (\<lambda>c. c \<noteq> CHR ''_'') name)"
    by simp
  from s d n r last_elem_plain [of namespace] show ?thesis by (intro conjI impI)
qed

text \<open>
  Namespace \<open>ns\<close> and name \<open>a_b\<close> decode to the name \<open>a\<close>, with \<open>b_sock\<close> as the third
  piece; namespace \<open>a/b\<close> and name \<open>c_d\<close> decode to the name \<open>c\<close>.
\<close>

theorem decode_truncates_name_witness:
  "DomainFromSocketPath (SocketFromNamespaceName ''/run/x'' ''ns'' ''a_b'') =
      (Some \<lparr>ObjectMeta_Namespace = ''ns'', ObjectMeta_Name = ''a''\<rparr>, None) \<and>
   strings_SplitN (filepath_Base (SocketFromNamespaceName ''/run/x'' ''ns'' ''a_b''))
        CHR ''_'' 3 = [''ns'', ''a'', ''b_sock''] \<and>
   DomainFromSocketPath (SocketFromNamespaceName ''/run/x'' ''a/b'' ''c_d'') =
      (Some \<lparr>ObjectMeta_Namespace = ''b'', ObjectMeta_Name = ''c''\<rparr>, None)"
proof -
  have h: "CHR ''_'' \<notin> set ''ns''" "CHR ''_'' \<in> set ''a_b''" "CHR ''/'' \<notin> set ''a_b''"
    "CHR ''_'' \<notin> set ''a/b''" "CHR ''_'' \<in> set ''c_d''" "CHR ''/'' \<notin> set ''c_d''"
    by simp_all
  have l: "last_elem ''ns'' = ''ns''" "last_elem ''a/b'' = ''b''"
    by (simp_all add: last_elem_def)
  from decode_truncates_name [OF h(1,2,3), of "''/run/x''"]
    decode_truncates_name [OF h(4,5,6), of "''/run/x''"]
  show ?thesis by (simp add: l)
qed

subsection \<open>Channel discovery\<close>

text \<open>
  C4, as stated, fails when the directory goes away after \<open>os.Stat\<close> has found it:
  \<open>ioutil.ReadDir\<close> then fails with a not-exist error, and \<open>ListAllSockets\<close>
  returns that error, which is the error of an absent directory.
\<close>

theorem ListAllSockets_absent_counterexample:
  "\<not> dir_absent \<lparr>os_Stat = (\<lambda>p. None),
       ioutil_ReadDir = (\<lambda>p. ([], Some (ErrNotExist ''open'' p)))\<rparr> (SocketsDirectory ''/run/x'') \<and>
   ListAllSockets \<lparr>os_Stat = (\<lambda>p. None),
       ioutil_ReadDir = (\<lambda>p. ([], Some (ErrNotExist ''open'' p)))\<rparr> ''/run/x'' =
     ([], Some (ErrNotExist ''open'' ''/run/x/sockets'')) \<and>
   os_IsNotExist (ErrNotExist ''open'' ''/run/x/sockets'')"
proof -
  have j: "filepath_Join [''/run/x'', ''sockets''] = ''/run/x/sockets''" by code_simp
  show ?thesis
    by (simp add: ListAllSockets_def FileExists_def dir_absent_def os_IsNotExist_def
        SocketsDirectory_def j)
qed

text \<open>
  C4, amended. When the sockets directory of the base directory is absent,
  \<open>ListAllSockets\<close> returns the empty sequence and no error. When it returns an
  error, the directory was not found absent, and the error is that of \<open>os.Stat\<close> on the
  directory, which is then no not-exist error, or, the directory found, that of
  \<open>ioutil.ReadDir\<close> on it. When the directory does not go away between the two
  reads, no error that \<open>ListAllSockets\<close> returns is a not-exist error.
\<close>

theorem ListAllSockets_absent:
  "(dir_absent fs (SocketsDirectory baseDir) \<longrightarrow> ListAllSockets fs baseDir = ([], None)) \<and>
   (snd (ListAllSockets fs baseDir) = Some err \<longrightarrow>
      \<not> dir_absent fs (SocketsDirectory baseDir) \<and>
      (os_Stat fs (SocketsDirectory baseDir) = Some err \<and> \<not> os_IsNotExist err \<or>
       os_Stat fs (SocketsDirectory baseDir) = None \<and>
       snd (ioutil_ReadDir fs (SocketsDirectory baseDir)) = Some err)) \<and>
   (dir_stable fs (SocketsDirectory baseDir) \<longrightarrow>
      snd (ListAllSockets fs baseDir) = Some err \<longrightarrow> \<not> os_IsNotExist err)"
  by (cases "ioutil_ReadDir fs (filepath_Join [baseDir, ''sockets''])")
     (auto simp: ListAllSockets_def FileExists_def dir_absent_def dir_stable_def
           SocketsDirectory_def split: option.splits if_splits)

text \<open>
  With no sockets directory under \<open>/run/x\<close> the result is empty and without error;
  when \<open>os.Stat\<close> is denied permission, the directory is not taken to be absent;
  when reading the directory is denied permission, that error is returned, and it is
  no not-exist error.
\<close>

theorem ListAllSockets_absent_witness:
  "ListAllSockets \<lparr>os_Stat = (\<lambda>p. Some (ErrNotExist ''stat'' p)), ioutil_ReadDir = (\<lambda>p. ([], Some (ErrNotExist ''open'' p)))\<rparr> ''/run/x'' = ([], None) \<and>
   \<not> dir_absent \<lparr>os_Stat = (\<lambda>p. Some (ErrorString ''permission denied'')), ioutil_ReadDir = (\<lambda>p. ([], None))\<rparr> (SocketsDirectory ''/run/x'') \<and>
   snd (ListAllSockets \<lparr>os_Stat = (\<lambda>p. None), ioutil_ReadDir = (\<lambda>p. ([], Some (ErrorString ''permission denied'')))\<rparr> ''/run/x'') =
     Some (ErrorString ''permission denied'') \<and>
   \<not> os_IsNotExist (ErrorString ''permission denied'')"
proof -
  let ?fs1 = "\<lparr>os_Stat = (\<lambda>p. Some (ErrNotExist ''stat'' p)), ioutil_ReadDir = (\<lambda>p. ([], Some (ErrNotExist ''open'' p)))\<rparr>"
  let ?fs2 = "\<lparr>os_Stat = (\<lambda>p. Some (ErrorString ''permission denied'')), ioutil_ReadDir = (\<lambda>p. ([]::string list, None::go_error option))\<rparr>"
  let ?fs3 = "\<lparr>os_Stat = (\<lambda>p. None), ioutil_ReadDir = (\<lambda>p. ([]::string list, Some (ErrorString ''permission denied'')))\<rparr>"
  have a: "dir_absent ?fs1 (SocketsDirectory ''/run/x'')"
    by (simp add: dir_absent_def os_IsNotExist_def)
  have b: "snd (ListAllSockets ?fs2 ''/run/x'') = Some (ErrorString ''permission denied'')"
    by (simp add: ListAllSockets_def FileExists_def os_IsNotExist_def)
  have c: "snd (ListAllSockets ?fs3 ''/run/x'') = Some (ErrorString ''permission denied'')"
    by (simp add: ListAllSockets_def FileExists_def)
  have s: "dir_stable ?fs3 (SocketsDirectory ''/run/x'')"
    by (simp add: dir_stable_def os_IsNotExist_def)
  from a ListAllSockets_absent [of ?fs1 "''/run/x''"] have "ListAllSockets ?fs1 ''/run/x'' = ([], None)"
    by blast
  moreover from b ListAllSockets_absent [of ?fs2 "''/run/x''" "ErrorString ''permission denied''"]
  have "\<not> dir_absent ?fs2 (SocketsDirectory ''/run/x'')" by blast
  moreover from c s ListAllSockets_absent [of ?fs3 "''/run/x''" "ErrorString ''permission denied''"]
  have "\<not> os_IsNotExist (ErrorString ''permission denied'')" by blast
  ultimately show ?thesis using c by simp
qed

subsection \<open>Command dispatch\<close>

lemma genericSendCmd_cases:
  assumes "peer c (calls c) cmd args = (reply, err)"
  shows "genericSendCmd c args cmd =
    (sent c cmd args, reply,
     if IsDisconnected err then err
     else (case err of
             Some e \<Rightarrow> Some (ErrUnknownSend cmd e)
           | None \<Rightarrow> if Success reply then None
                     else Some (ErrServerFailed cmd (Message reply))))"
  using assms by (simp add: genericSendCmd_def Call_def sent_def split: option.splits)

lemma genericSendCmd_calls: "fst (genericSendCmd c args cmd) = sent c cmd args"
  by (cases "peer c (calls c) cmd args") (simp add: genericSendCmd_cases)

text \<open>
  C2. When the call fails with \<open>rpc.ErrShutdown\<close>, \<open>io.ErrUnexpectedEOF\<close> or \<open>io.EOF\<close>,
  \<open>genericSendCmd\<close> returns that very error, whatever the reply holds:
  \<open>IsDisconnected\<close> recognises it, and it is neither the error that wraps a failure of
  the transport nor the error of a command the peer rejected.
\<close>

theorem genericSendCmd_disconnected:
  assumes "peer c (calls c) cmd args = (reply, err)"
    and "err = Some ErrShutdown \<or> err = Some ErrUnexpectedEOF \<or> err = Some EOF"
  shows "genericSendCmd c args cmd = (sent c cmd args, reply, err) \<and>
    IsDisconnected err \<and>
    err \<noteq> Some (ErrUnknownSend cmd e) \<and>
    err \<noteq> Some (ErrServerFailed cmd (Message reply))"
proof -
  from assms(2) have d: "IsDisconnected err" by (auto simp: IsDisconnected_def)
  with genericSendCmd_cases [OF assms(1)] have "genericSendCmd c args cmd = (sent c cmd args, reply, err)"
    by simp
  with d assms(2) show ?thesis by auto
qed

text \<open>
  A peer that ends the stream leaves a reply without success; the error returned is
  \<open>io.EOF\<close> itself.
\<close>

theorem genericSendCmd_disconnected_witness:
  "genericSendCmd (answering \<lparr>Success = False, Message = ''no'', Domain = None\<rparr> (Some EOF)
        :: (nat, nat) VirtLauncherClient) zero_Args ''Launcher.Ping'' =
     (sent (answering \<lparr>Success = False, Message = ''no'', Domain = None\<rparr> (Some EOF)) ''Launcher.Ping'' zero_Args,
      \<lparr>Success = False, Message = ''no'', Domain = None\<rparr>, Some EOF)"
proof -
  have "peer (answering \<lparr>Success = False, Message = ''no'', Domain = None\<rparr> (Some EOF) :: (nat, nat) VirtLauncherClient)
      (calls (answering \<lparr>Success = False, Message = ''no'', Domain = None\<rparr> (Some EOF) :: (nat, nat) VirtLauncherClient))
      ''Launcher.Ping'' zero_Args = (\<lparr>Success = False, Message = ''no'', Domain = None\<rparr>, Some EOF)"
    by (simp add: answering_def)
  from genericSendCmd_disconnected [OF this] show ?thesis by simp
qed

text \<open>
  C5. The message of a rejected command goes through \<open>fmt.Errorf\<close> as part of the
  format string, so a percent sign in it is read as a directive: for the message
  \<open>%d items\<close> the text of the error is
  \<open>server error. command Launcher.Ping failed: %!d(MISSING) items\<close>, which does not hold
  the message as the peer gave it.
\<close>

theorem genericSendCmd_rejection_text:
  "genericSendCmd (answering \<lparr>Success = False, Message = ''%d items'', Domain = None\<rparr> None
        :: (nat, nat) VirtLauncherClient) zero_Args ''Launcher.Ping'' =
     (sent (answering \<lparr>Success = False, Message = ''%d items'', Domain = None\<rparr> None) ''Launcher.Ping'' zero_Args,
      \<lparr>Success = False, Message = ''%d items'', Domain = None\<rparr>,
      Some (ErrServerFailed ''Launcher.Ping'' ''%d items'')) \<and>
   Error (ErrServerFailed ''Launcher.Ping'' ''%d items'') =
     Some ''server error. command Launcher.Ping failed: %!d(MISSING) items'' \<and>
   Error (ErrServerFailed ''Launcher.Ping'' ''%d items'') \<noteq>
     Some ''server error. command Launcher.Ping failed: %d items''"
proof -
  have "peer (answering \<lparr>Success = False, Message = ''%d items'', Domain = None\<rparr> None :: (nat, nat) VirtLauncherClient)
      (calls (answering \<lparr>Success = False, Message = ''%d items'', Domain = None\<rparr> None :: (nat, nat) VirtLauncherClient))
      ''Launcher.Ping'' zero_Args = (\<lparr>Success = False, Message = ''%d items'', Domain = None\<rparr>, None)"
    by (simp add: answering_def)
  from genericSendCmd_cases [OF this]
  have a: "genericSendCmd (answering \<lparr>Success = False, Message = ''%d items'', Domain = None\<rparr> None
        :: (nat, nat) VirtLauncherClient) zero_Args ''Launcher.Ping'' =
     (sent (answering \<lparr>Success = False, Message = ''%d items'', Domain = None\<rparr> None) ''Launcher.Ping'' zero_Args,
      \<lparr>Success = False, Message = ''%d items'', Domain = None\<rparr>,
      Some (ErrServerFailed ''Launcher.Ping'' ''%d items''))"
    by (simp add: IsDisconnected_def)
  have b: "Error (ErrServerFailed ''Launcher.Ping'' ''%d items'') =
     Some ''server error. command Launcher.Ping failed: %!d(MISSING) items''"
    by code_simp
  from a b show ?thesis by simp
qed

text \<open>
  A format string without a percent sign is printed as it is, so the text of the
  error holds the command name and the message unchanged when neither has a percent
  sign.
\<close>

lemma Sprintf0_no_percent: "CHR ''%'' \<notin> set s \<Longrightarrow> Sprintf0 s = Some s"
  by (induction s rule: Sprintf0.induct) auto

theorem rejection_text_verbatim:
  assumes "CHR ''%'' \<notin> set cmd" and "CHR ''%'' \<notin> set message"
  shows "Error (ErrServerFailed cmd message) =
    Some (''server error. command '' @ cmd @ '' failed: '' @ message)"
  using assms by (simp add: Sprintf0_no_percent)

theorem rejection_text_verbatim_witness:
  "Error (ErrServerFailed ''Launcher.Kill'' ''no such domain'') =
    Some ''server error. command Launcher.Kill failed: no such domain''"
proof -
  have "Error (ErrServerFailed ''Launcher.Kill'' ''no such domain'') =
    Some (''server error. command '' @ ''Launcher.Kill'' @ '' failed: '' @ ''no such domain'')"
    by (rule rejection_text_verbatim) simp_all
  then show ?thesis by simp
qed

text \<open>
  C6. When the call of \<open>GetDomain\<close> returns no error and a reply with success,
  \<open>GetDomain\<close> returns no error; with no domain in the reply it returns the zero
  domain and \<open>exists = false\<close>, and with a domain in the reply it returns that domain
  and \<open>exists = true\<close>.
\<close>

theorem GetDomain_exists:
  assumes "peer c (calls c) ''Launcher.GetDomain'' zero_Args = (reply, None)"
    and "Success reply"
  shows "GetDomain c =
    (sent c ''Launcher.GetDomain'' zero_Args,
     (case Domain reply of
        None \<Rightarrow> (Some zero_Domain, False, None)
      | Some d \<Rightarrow> (Some d, True, None)))"
  using assms(2) genericSendCmd_cases [OF assms(1)]
  by (simp add: GetDomain_def IsDisconnected_def split: option.splits)

text \<open>
  A peer that replies with no domain, and one that replies with the domain \<open>vm1\<close> of
  namespace \<open>default\<close>.
\<close>

theorem GetDomain_exists_witness:
  "GetDomain (answering \<lparr>Success = True, Message = [], Domain = None\<rparr> None :: (nat, nat) VirtLauncherClient) =
     (sent (answering \<lparr>Success = True, Message = [], Domain = None\<rparr> None) ''Launcher.GetDomain'' zero_Args,
      Some \<lparr>ObjectMeta_Namespace = [], ObjectMeta_Name = []\<rparr>, False, None) \<and>
   GetDomain (answering \<lparr>Success = True, Message = [], Domain = Some \<lparr>ObjectMeta_Namespace = ''default'', ObjectMeta_Name = ''vm1''\<rparr>\<rparr> None :: (nat, nat) VirtLauncherClient) =
     (sent (answering \<lparr>Success = True, Message = [], Domain = Some \<lparr>ObjectMeta_Namespace = ''default'', ObjectMeta_Name = ''vm1''\<rparr>\<rparr> None) ''Launcher.GetDomain'' zero_Args,
      Some \<lparr>ObjectMeta_Namespace = ''default'', ObjectMeta_Name = ''vm1''\<rparr>, True, None)"
proof -
  have p: "peer (answering r None :: (nat, nat) VirtLauncherClient)
      (calls (answering r None :: (nat, nat) VirtLauncherClient)) ''Launcher.GetDomain'' zero_Args = (r, None)" for r
    by (simp add: answering_def)
  show ?thesis
    using GetDomain_exists [OF p [of "\<lparr>Success = True, Message = [], Domain = None\<rparr>"]]
      GetDomain_exists [OF p [of "\<lparr>Success = True, Message = [], Domain = Some \<lparr>ObjectMeta_Namespace = ''default'', ObjectMeta_Name = ''vm1''\<rparr>\<rparr>"]]
    by (simp add: zero_Domain_def)
qed

lemma SyncVirtualMachine_sends:
  "SyncVirtualMachine c vm secrets =
     (sent c ''Launcher.Sync''
        \<lparr>VM = vm, K8Secrets = secrets, SecretUsageType = [], SecretUsageID = [], SecretValue = []\<rparr>,
      snd (snd (genericSendCmd c
        \<lparr>VM = vm, K8Secrets = secrets, SecretUsageType = [], SecretUsageID = [], SecretValue = []\<rparr>
        ''Launcher.Sync'')))"
  by (simp add: SyncVirtualMachine_def zero_Args_def Let_def split_beta genericSendCmd_calls)

lemma ShutdownVirtualMachine_sends:
  "ShutdownVirtualMachine c vm =
     (sent c ''Launcher.Shutdown''
        \<lparr>VM = vm, K8Secrets = Map.empty, SecretUsageType = [], SecretUsageID = [], SecretValue = []\<rparr>,
      snd (snd (genericSendCmd c
        \<lparr>VM = vm, K8Secrets = Map.empty, SecretUsageType = [], SecretUsageID = [], SecretValue = []\<rparr>
        ''Launcher.Shutdown'')))"
  by (simp add: ShutdownVirtualMachine_def zero_Args_def Let_def split_beta genericSendCmd_calls)

lemma KillVirtualMachine_sends:
  "KillVirtualMachine c vm =
     (sent c ''Launcher.Kill''
        \<lparr>VM = vm, K8Secrets = Map.empty, SecretUsageType = [], SecretUsageID = [], SecretValue = []\<rparr>,
      snd (snd (genericSendCmd c
        \<lparr>VM = vm, K8Secrets = Map.empty, SecretUsageType = [], SecretUsageID = [], SecretValue = []\<rparr>
        ''Launcher.Kill'')))"
  by (simp add: KillVirtualMachine_def zero_Args_def Let_def split_beta genericSendCmd_calls)

lemma SyncSecret_sends:
  "SyncSecret c vm usageType usageID secretValue =
     (sent c ''Launcher.SyncSecret''
        \<lparr>VM = vm, K8Secrets = Map.empty, SecretUsageType = usageType,
         SecretUsageID = usageID, SecretValue = secretValue\<rparr>,
      snd (snd (genericSendCmd c
        \<lparr>VM = vm, K8Secrets = Map.empty, SecretUsageType = usageType,
         SecretUsageID = usageID, SecretValue = secretValue\<rparr>
        ''Launcher.SyncSecret'')))"
  by (simp add: SyncSecret_def zero_Args_def Let_def split_beta genericSendCmd_calls)

lemma Ping_sends:
  "Ping c =
     (sent c ''Launcher.Ping''
        \<lparr>VM = None, K8Secrets = Map.empty, SecretUsageType = [], SecretUsageID = [], SecretValue = []\<rparr>,
      snd (snd (genericSendCmd c
        \<lparr>VM = None, K8Secrets = Map.empty, SecretUsageType = [], SecretUsageID = [], SecretValue = []\<rparr>
        ''Launcher.Ping'')))"
  by (simp add: Ping_def zero_Args_def Let_def split_beta genericSendCmd_calls)

lemma GetDomain_sends:
  "fst (GetDomain c) =
     sent c ''Launcher.GetDomain''
        \<lparr>VM = None, K8Secrets = Map.empty, SecretUsageType = [], SecretUsageID = [], SecretValue = []\<rparr> \<and>
   snd (snd (snd (GetDomain c))) =
     snd (snd (genericSendCmd c
        \<lparr>VM = None, K8Secrets = Map.empty, SecretUsageType = [], SecretUsageID = [], SecretValue = []\<rparr>
        ''Launcher.GetDomain''))"
proof -
  obtain c' reply err where g: "genericSendCmd c (zero_Args :: ('a, 'b) Args) ''Launcher.GetDomain'' = (c', reply, err)"
    by (cases "genericSendCmd c (zero_Args :: ('a, 'b) Args) ''Launcher.GetDomain''") auto
  with genericSendCmd_calls [of c zero_Args "''Launcher.GetDomain''"]
  have c': "c' = sent c ''Launcher.GetDomain'' zero_Args" by simp
  from g c' have "fst (GetDomain c) = sent c ''Launcher.GetDomain'' zero_Args \<and>
      snd (snd (snd (GetDomain c))) = err"
    by (simp add: GetDomain_def split: option.splits)
  with g show ?thesis by (simp add: zero_Args_def)
qed

text \<open>
  C7, as stated, fails for \<open>SyncSecret\<close>: it sends the workload definition too, not
  the usage type, the usage ID and the secret value only.
\<close>

theorem named_operations_send_counterexample:
  "calls (fst (SyncSecret (answering \<lparr>Success = True, Message = [], Domain = None\<rparr> None
        :: (nat, nat) VirtLauncherClient) (Some 7) ''t'' ''i'' ''v'')) \<noteq>
     [(''Launcher.SyncSecret'',
       \<lparr>VM = None, K8Secrets = Map.empty, SecretUsageType = ''t'',
        SecretUsageID = ''i'', SecretValue = ''v''\<rparr>)]"
  by (simp add: SyncSecret_sends sent_def answering_def)

text \<open>
  C7, amended. Each named operation sends exactly one request, with its own command
  name, and returns the error of \<open>genericSendCmd\<close> for it. \<open>SyncVirtualMachine\<close> sends
  \<open>Launcher.Sync\<close> with the workload definition and the secrets;
  \<open>ShutdownVirtualMachine\<close> sends \<open>Launcher.Shutdown\<close> and \<open>KillVirtualMachine\<close> sends
  \<open>Launcher.Kill\<close>, each with the workload definition; \<open>SyncSecret\<close> sends
  \<open>Launcher.SyncSecret\<close> with the workload definition, the usage type, the usage ID
  and the secret value; \<open>GetDomain\<close> sends \<open>Launcher.GetDomain\<close> and \<open>Ping\<close> sends
  \<open>Launcher.Ping\<close>, with no field set. Every field not named has its zero value.
\<close>

theorem named_operations_send:
  "SyncVirtualMachine c vm secrets =
     (sent c ''Launcher.Sync''
        \<lparr>VM = vm, K8Secrets = secrets, SecretUsageType = [], SecretUsageID = [], SecretValue = []\<rparr>,
      snd (snd (genericSendCmd c
        \<lparr>VM = vm, K8Secrets = secrets, SecretUsageType = [], SecretUsageID = [], SecretValue = []\<rparr>
        ''Launcher.Sync''))) \<and>
   ShutdownVirtualMachine c vm =
     (sent c ''Launcher.Shutdown''
        \<lparr>VM = vm, K8Secrets = Map.empty, SecretUsageType = [], SecretUsageID = [], SecretValue = []\<rparr>,
      snd (snd (genericSendCmd c
        \<lparr>VM = vm, K8Secrets = Map.empty, SecretUsageType = [], SecretUsageID = [], SecretValue = []\<rparr>
        ''Launcher.Shutdown''))) \<and>
   KillVirtualMachine c vm =
     (sent c ''Launcher.Kill''
        \<lparr>VM = vm, K8Secrets = Map.empty, SecretUsageType = [], SecretUsageID = [], SecretValue = []\<rparr>,
      snd (snd (genericSendCmd c
        \<lparr>VM = vm, K8Secrets = Map.empty, SecretUsageType = [], SecretUsageID = [], SecretValue = []\<rparr>
        ''Launcher.Kill''))) \<and>
   SyncSecret c vm usageType usageID secretValue =
     (sent c ''Launcher.SyncSecret''
        \<lparr>VM = vm, K8Secrets = Map.empty, SecretUsageType = usageType,
         SecretUsageID = usageID, SecretValue = secretValue\<rparr>,
      snd (snd (genericSendCmd c
        \<lparr>VM = vm, K8Secrets = Map.empty, SecretUsageType = usageType,
         SecretUsageID = usageID, SecretValue = secretValue\<rparr>
        ''Launcher.SyncSecret''))) \<and>
   fst (GetDomain c) =
     sent c ''Launcher.GetDomain''
        \<lparr>VM = None, K8Secrets = Map.empty, SecretUsageType = [], SecretUsageID = [], SecretValue = []\<rparr> \<and>
   snd (snd (snd (GetDomain c))) =
     snd (snd (genericSendCmd c
        \<lparr>VM = None, K8Secrets = Map.empty, SecretUsageType = [], SecretUsageID = [], SecretValue = []\<rparr>
        ''Launcher.GetDomain'')) \<and>
   Ping c =
     (sent c ''Launcher.Ping''
        \<lparr>VM = None, K8Secrets = Map.empty, SecretUsageType = [], SecretUsageID = [], SecretValue = []\<rparr>,
      snd (snd (genericSendCmd c
        \<lparr>VM = None, K8Secrets = Map.empty, SecretUsageType = [], SecretUsageID = [], SecretValue = []\<rparr>
        ''Launcher.Ping'')))"
  using SyncVirtualMachine_sends [of c vm secrets] ShutdownVirtualMachine_sends [of c vm]
    KillVirtualMachine_sends [of c vm] SyncSecret_sends [of c vm usageType usageID secretValue]
    GetDomain_sends [of c] Ping_sends [of c]
  by blast

text \<open>
  \<open>SyncSecret\<close> for the workload \<open>7\<close> on a fresh connection sends one request.
\<close>

theorem named_operations_send_witness:
  "calls (fst (SyncSecret (answering \<lparr>Success = True, Message = [], Domain = None\<rparr> None
        :: (nat, nat) VirtLauncherClient) (Some 7) ''t'' ''i'' ''v'')) =
     [(''Launcher.SyncSecret'',
       \<lparr>VM = Some 7, K8Secrets = Map.empty, SecretUsageType = ''t'',
        SecretUsageID = ''i'', SecretValue = ''v''\<rparr>)]"
proof -
  let ?c = "answering \<lparr>Success = True, Message = [], Domain = None\<rparr> None
        :: (nat, nat) VirtLauncherClient"
  from named_operations_send [of ?c "Some 7" Map.empty "''t''" "''i''" "''v''",
      THEN conjunct2, THEN conjunct2, THEN conjunct2, THEN conjunct1]
  have "fst (SyncSecret ?c (Some 7) ''t'' ''i'' ''v'') =
     sent ?c ''Launcher.SyncSecret''
        \<lparr>VM = Some 7, K8Secrets = Map.empty, SecretUsageType = ''t'',
         SecretUsageID = ''i'', SecretValue = ''v''\<rparr>"
    by simp
  then show ?thesis by (simp add: sent_def answering_def)
qed

end
